theory Spec2Isabelle
  imports Complex_Main "HOL-Library.Multiset"
begin

section \<open>Data model\<close>

text \<open>
  The dashboard exists in two revisions with the same aggregation core (the JSON-backed
  one and the CSV-backed one). The functions \<open>filteredByScope\<close>, \<open>stats\<close>,
  \<open>cohortBreakdowns\<close>, the auto-populate effect and the "Stranded Rate" expression are
  textually identical in both; the ordering tables, the profile classifier and the
  rule-based recommendation list are those of the CSV-backed revision.

  Numbers. The source computes with IEEE doubles. Weights are modelled as exact rationals
  (\<open>rat\<close>), so rounding of sums and of the threshold literals is abstracted away. What a
  division can produce beyond a finite value is kept: the type \<open>jsnum\<close> below has
  \<open>NaN\<close> and the two infinities, and \<open>js_div\<close> yields them exactly where the source's \<open>/\<close>
  does for a denominator that is \<open>+0\<close> (every denominator in the modelled code is a sum
  started at \<open>0\<close>, which is never \<open>-0\<close>).

  Objects used as dictionaries (\<open>Record<string, number>\<close>) are association lists in
  insertion order, which is the order \<open>Object.entries\<close> enumerates string keys that are not
  array indices; labels are taken not to be canonical array-index strings and not to be names
  of inherited object properties.
\<close>

datatype MSACategory = Nashville | Memphis | Knoxville | Chattanooga | Other_MSA | Rural | All_MSA

fun msa_name :: "MSACategory \<Rightarrow> string" where
  "msa_name Nashville = ''Nashville''"
| "msa_name Memphis = ''Memphis''"
| "msa_name Knoxville = ''Knoxville''"
| "msa_name Chattanooga = ''Chattanooga''"
| "msa_name Other_MSA = ''Other MSA''"
| "msa_name Rural = ''Rural''"
| "msa_name All_MSA = ''All''"

record DataRow =
  msa_category :: string
  NAICS2_NAME :: string
  n_weighted :: rat
  n_weighted_low_wage :: rat
  n_weighted_underemployed :: rat
  n_weighted_stalled :: rat
  education_level_label :: string
  soc_2019_5_acs_name :: string
  age_group :: string

datatype CohortType = Low_Wage | Underemployed | Stalled | All_Stranded

definition EDUCATION_ORDER :: "string list" where
  "EDUCATION_ORDER =
     [''Less than HS'', ''HS diploma/GED'', ''Some college'', ''Associate's degree'',
      ''Bachelor's degree'', ''Master's degree'', ''Professional/Doctorate'']"

definition AGE_GROUPS :: "string list" where
  "AGE_GROUPS = [''18-24'', ''25-34'', ''35-44'', ''45-54'', ''55-64'']"

subsection \<open>Loader (CSV-backed revision)\<close>

text \<open>
  A parsed CSV record: a text cell is \<open>None\<close> when the column is absent or empty, a
  numeric cell is \<open>None\<close> when \<open>Number(cell)\<close> is not a number. Label cells are taken to be
  text. \<open>or_default v d\<close> is \<open>v || d\<close> on a text cell, \<open>number_or_zero v\<close> is
  \<open>Number(v) || 0\<close>.
\<close>

record CsvRow =
  csv_msa_category :: "string option"
  csv_naics2_title :: "string option"
  csv_n_weighted :: "rat option"
  csv_n_low_wage_weighted :: "rat option"
  csv_n_underemployed_weighted :: "rat option"
  csv_n_stranded_weighted :: "rat option"
  csv_education_level_label :: "string option"
  csv_SOC_2019_5_ACS_NAME :: "string option"
  csv_age_group :: "string option"

definition or_default :: "string option \<Rightarrow> string \<Rightarrow> string" where
  "or_default v d = (case v of None \<Rightarrow> d | Some s \<Rightarrow> (if s = [] then d else s))"

definition number_or_zero :: "rat option \<Rightarrow> rat" where
  "number_or_zero v = (case v of None \<Rightarrow> 0 | Some x \<Rightarrow> x)"

definition mappedRow :: "CsvRow \<Rightarrow> DataRow" where
  "mappedRow row =
     \<lparr> msa_category = or_default (csv_msa_category row) '''',
       NAICS2_NAME = or_default (csv_naics2_title row) ''Other'',
       n_weighted = number_or_zero (csv_n_weighted row),
       n_weighted_low_wage = number_or_zero (csv_n_low_wage_weighted row),
       n_weighted_underemployed = number_or_zero (csv_n_underemployed_weighted row),
       n_weighted_stalled = number_or_zero (csv_n_stranded_weighted row),
       education_level_label = or_default (csv_education_level_label row) ''Unknown'',
       soc_2019_5_acs_name = or_default (csv_SOC_2019_5_ACS_NAME row) ''Other'',
       age_group = or_default (csv_age_group row) '''' \<rparr>"

text \<open>The argument is \<open>None\<close> when fetching or parsing fails: the loader then returns no rows.\<close>

definition loadCSVData :: "CsvRow list option \<Rightarrow> DataRow list" where
  "loadCSVData results = (case results of None \<Rightarrow> [] | Some rows \<Rightarrow> map mappedRow rows)"

section \<open>Scope filter and cohort aggregator\<close>

definition filteredByScope :: "DataRow list \<Rightarrow> MSACategory \<Rightarrow> string \<Rightarrow> DataRow list" where
  "filteredByScope rawData geography sector =
     filter (\<lambda>d. (geography = All_MSA \<or> msa_category d = msa_name geography)
                 \<and> NAICS2_NAME d = sector) rawData"

record Stats =
  total :: rat
  lw :: rat
  ue :: rat
  st :: rat

definition stats :: "DataRow list \<Rightarrow> Stats" where
  "stats scoped =
     foldl (\<lambda>s d. \<lparr> total = total s + n_weighted d,
                     lw = lw s + n_weighted_low_wage d,
                     ue = ue s + n_weighted_underemployed d,
                     st = st s + n_weighted_stalled d \<rparr>)
           \<lparr> total = 0, lw = 0, ue = 0, st = 0 \<rparr> scoped"

type_synonym breakdown = "(string \<times> rat) list"

text \<open>\<open>get_or_zero m k\<close> is \<open>m[k] || 0\<close>; \<open>assign k v m\<close> is \<open>m[k] = v\<close>: an existing key
  keeps its position, a new key is appended.\<close>

definition get_or_zero :: "breakdown \<Rightarrow> string \<Rightarrow> rat" where
  "get_or_zero m k = (case map_of m k of None \<Rightarrow> 0 | Some v \<Rightarrow> v)"

fun assign :: "string \<Rightarrow> rat \<Rightarrow> breakdown \<Rightarrow> breakdown" where
  "assign k v [] = [(k, v)]"
| "assign k v ((k', v') # m) =
     (if k' = k then (k, v) # m else (k', v') # assign k v m)"

definition cohortWeight :: "CohortType \<Rightarrow> DataRow \<Rightarrow> rat" where
  "cohortWeight selectedCohort d =
     (if selectedCohort = Low_Wage then n_weighted_low_wage d
      else if selectedCohort = Underemployed then n_weighted_underemployed d
      else if selectedCohort = Stalled then n_weighted_stalled d
      else n_weighted_low_wage d + n_weighted_underemployed d + n_weighted_stalled d)"

record Breakdowns =
  edu :: breakdown
  age :: breakdown
  occ :: breakdown

text \<open>One iteration of the \<open>forEach\<close> over the scoped rows.\<close>

definition accumulate :: "CohortType \<Rightarrow> Breakdowns \<Rightarrow> DataRow \<Rightarrow> Breakdowns" where
  "accumulate selectedCohort acc d =
     (let weight = cohortWeight selectedCohort d in
      \<lparr> edu = assign (education_level_label d)
                (get_or_zero (edu acc) (education_level_label d) + weight) (edu acc),
        age = assign (age_group d) (get_or_zero (age acc) (age_group d) + weight) (age acc),
        occ = assign (soc_2019_5_acs_name d)
                (get_or_zero (occ acc) (soc_2019_5_acs_name d) + weight) (occ acc) \<rparr>)"

text \<open>\<open>Array.prototype.indexOf\<close>: the position of the first occurrence, \<open>-1\<close> when absent.\<close>

primrec indexOf :: "'a list \<Rightarrow> 'a \<Rightarrow> int" where
  "indexOf [] x = - 1"
| "indexOf (y # ys) x =
     (if y = x then 0 else (let i = indexOf ys x in if i < 0 then - 1 else i + 1))"

text \<open>
  \<open>Array.prototype.sort\<close> with a comparator \<open>(a, b) => key a - key b\<close> is a stable sort by
  ascending key; it is modelled by the stable insertion sort \<open>sort_key\<close>. The comparator
  \<open>(a, b) => b[1] - a[1]\<close> is the key \<open>- weight\<close>.
\<close>

definition cohortBreakdowns :: "DataRow list \<Rightarrow> CohortType \<Rightarrow> Breakdowns" where
  "cohortBreakdowns scoped selectedCohort =
     (let acc = foldl (accumulate selectedCohort) \<lparr> edu = [], age = [], occ = [] \<rparr> scoped in
      \<lparr> edu = sort_key (\<lambda>a. indexOf EDUCATION_ORDER (fst a)) (edu acc),
        age = sort_key (\<lambda>a. indexOf AGE_GROUPS (fst a)) (age acc),
        occ = filter (\<lambda>a. snd a > 0) (sort_key (\<lambda>a. - snd a) (occ acc)) \<rparr>)"

section \<open>Profile classifier\<close>

datatype jsnum = Fin rat | PosInf | NegInf | NaN

definition js_div :: "rat \<Rightarrow> rat \<Rightarrow> jsnum" where
  "js_div a b =
     (if b \<noteq> 0 then Fin (a / b)
      else if a > 0 then PosInf
      else if a < 0 then NegInf
      else NaN)"

text \<open>\<open>x > t\<close> for a finite threshold \<open>t\<close>: false on \<open>NaN\<close>.\<close>

fun js_gt :: "jsnum \<Rightarrow> rat \<Rightarrow> bool" where
  "js_gt (Fin x) t = (x > t)"
| "js_gt PosInf t = True"
| "js_gt NegInf t = False"
| "js_gt NaN t = False"

text \<open>\<open>entries.reduce((sum, [, val]) => sum + val, 0)\<close>.\<close>

definition sum_vals :: "breakdown \<Rightarrow> rat" where
  "sum_vals entries = foldl (\<lambda>s a. s + snd a) 0 entries"

definition totalCohort :: "Breakdowns \<Rightarrow> rat" where
  "totalCohort b = sum_vals (edu b)"

definition youngCount :: "Breakdowns \<Rightarrow> rat" where
  "youngCount b = sum_vals (filter (\<lambda>a. fst a = ''18-24'' \<or> fst a = ''25-34'') (age b))"

definition matureCount :: "Breakdowns \<Rightarrow> rat" where
  "matureCount b = sum_vals (filter (\<lambda>a. fst a = ''45-54'' \<or> fst a = ''55-64'') (age b))"

definition lowEduCount :: "Breakdowns \<Rightarrow> rat" where
  "lowEduCount b =
     sum_vals (filter (\<lambda>a. fst a = ''Less than HS'' \<or> fst a = ''HS diploma/GED'') (edu b))"

definition highEduCount :: "Breakdowns \<Rightarrow> rat" where
  "highEduCount b =
     sum_vals (filter (\<lambda>a. fst a = ''Bachelor's degree'' \<or> fst a = ''Graduate degree'') (edu b))"

definition someCollegeCount :: "Breakdowns \<Rightarrow> rat" where
  "someCollegeCount b =
     (case find (\<lambda>a. fst a = ''Some college'') (edu b) of None \<Rightarrow> 0 | Some a \<Rightarrow> snd a)"

text \<open>The five quotients the source compares against thresholds (it does not name them).\<close>

definition youngShare :: "Breakdowns \<Rightarrow> jsnum" where
  "youngShare b = js_div (youngCount b) (totalCohort b)"

definition matureShare :: "Breakdowns \<Rightarrow> jsnum" where
  "matureShare b = js_div (matureCount b) (totalCohort b)"

definition lowEducationShare :: "Breakdowns \<Rightarrow> jsnum" where
  "lowEducationShare b = js_div (lowEduCount b) (totalCohort b)"

definition highEducationShare :: "Breakdowns \<Rightarrow> jsnum" where
  "highEducationShare b = js_div (highEduCount b) (totalCohort b)"

definition someCollegeShare :: "Breakdowns \<Rightarrow> jsnum" where
  "someCollegeShare b = js_div (someCollegeCount b) (totalCohort b)"

definition isYoungCohort :: "Breakdowns \<Rightarrow> bool" where
  "isYoungCohort b = js_gt (youngShare b) (1 / 2)"

definition isMatureCohort :: "Breakdowns \<Rightarrow> bool" where
  "isMatureCohort b = js_gt (matureShare b) (1 / 2)"

definition isLowEducation :: "Breakdowns \<Rightarrow> bool" where
  "isLowEducation b = js_gt (lowEducationShare b) (6 / 10)"

definition isHighEducation :: "Breakdowns \<Rightarrow> bool" where
  "isHighEducation b = js_gt (highEducationShare b) (4 / 10)"

definition hasSomeCollege :: "Breakdowns \<Rightarrow> bool" where
  "hasSomeCollege b = js_gt (someCollegeShare b) (15 / 100)"

text \<open>\<open>String.prototype.includes\<close>: the second string occurs as a contiguous substring.\<close>

fun includes_str :: "string \<Rightarrow> string \<Rightarrow> bool" where
  "includes_str [] k = (k = [])"
| "includes_str (c # s) k = (take (length k) (c # s) = k \<or> includes_str s k)"

section \<open>Recommendation composer\<close>

text \<open>
  An entry of the recommendation list is identified by its template; \<open>title\<close> gives the
  template's fixed title. The interpolated advice text is not modelled.
\<close>

datatype strategy =
    Youth_Apprenticeship | Mid_Career_Upskilling | Career_Advancement
  | Foundational_Skills | Advanced_Credential_Stacking | Flexible_Postsecondary
  | Advanced_Manufacturing | Healthcare_Ladders | Digital_Commerce | Skilled_Trades
  | Technology_Upskilling | Educational_Support | Cross_Sector
  | College_Completion | Internal_Mobility | Self_Employment

fun title :: "strategy \<Rightarrow> string" where
  "title Youth_Apprenticeship =
     ''Strategy: Youth Apprenticeship & Pre-Apprenticeship Programs''"
| "title Mid_Career_Upskilling = ''Strategy: Mid-Career Upskilling & Re-Credentialing''"
| "title Career_Advancement = ''Strategy: Career Advancement Pathways''"
| "title Foundational_Skills =
     ''Strategy: Foundational Skills & Industry-Recognized Credentials''"
| "title Advanced_Credential_Stacking =
     ''Strategy: Advanced Credential Stacking & Management Pathways''"
| "title Flexible_Postsecondary =
     ''Strategy: Flexible Postsecondary Completion & Certificate Programs''"
| "title Advanced_Manufacturing =
     ''Strategy: Advanced Manufacturing Skills & Automation Training''"
| "title Healthcare_Ladders = ''Strategy: Healthcare Career Ladders & Clinical Certifications''"
| "title Digital_Commerce =
     ''Strategy: Digital Commerce & Customer Experience Specialization''"
| "title Skilled_Trades = ''Strategy: Skilled Trades Credentialing & Supervisory Development''"
| "title Technology_Upskilling = ''Strategy: Technology Upskilling & Professional Certification''"
| "title Educational_Support = ''Strategy: Educational Support Professional Development''"
| "title Cross_Sector = ''Strategy: Cross-Sector Skills Transfer & Industry Switching''"
| "title College_Completion = ''Strategy: College Completion & Credit for Prior Learning''"
| "title Internal_Mobility = ''Strategy: Employer-Led Internal Mobility Systems''"
| "title Self_Employment = ''Strategy: Self-Employment & Microbusiness Development''"

definition entrepreneurshipOccupations :: "string list" where
  "entrepreneurshipOccupations =
     [''Carpenters'', ''Electricians'', ''Plumbers'', ''HVAC'', ''Hair'', ''Cosmetologists'',
      ''Photographers'', ''Designers'', ''Drivers'', ''Mechanics'', ''Repair'']"

text \<open>\<open>targetOccupation || ''\<close>.\<close>

definition or_empty :: "string option \<Rightarrow> string" where
  "or_empty t = (case t of None \<Rightarrow> [] | Some s \<Rightarrow> s)"

definition isEntrepreneurshipViable :: "string option \<Rightarrow> bool" where
  "isEntrepreneurshipViable target =
     list_ex (\<lambda>k. includes_str (or_empty target) k) entrepreneurshipOccupations"

text \<open>
  The list is built by successive \<open>push\<close> calls; \<open>r0\<close> to \<open>r6\<close> are its successive
  contents. The arguments are the current breakdowns, the selected sector and the target
  occupation.
\<close>

definition recommendations :: "Breakdowns \<Rightarrow> string \<Rightarrow> string option \<Rightarrow> strategy list" where
  "recommendations b sec target =
     (let isManufacturing = includes_str sec ''Manufacturing'';
          isHealthcare = includes_str sec ''Health'';
          isRetail = (includes_str sec ''Retail'' \<or> includes_str sec ''Food'');
          isConstruction = includes_str sec ''Construction'';
          isProfessional = (includes_str sec ''Professional'' \<or> includes_str sec ''Finance''
                             \<or> includes_str sec ''Information'');
          isEducation = includes_str sec ''Educational'';
          r0 = [];
          r1 = (if isYoungCohort b then r0 @ [Youth_Apprenticeship]
                else if isMatureCohort b then r0 @ [Mid_Career_Upskilling]
                else r0 @ [Career_Advancement]);
          r2 = (if isLowEducation b then r1 @ [Foundational_Skills]
                else if isHighEducation b then r1 @ [Advanced_Credential_Stacking]
                else r1 @ [Flexible_Postsecondary]);
          r3 = (if isManufacturing then r2 @ [Advanced_Manufacturing]
                else if isHealthcare then r2 @ [Healthcare_Ladders]
                else if isRetail then r2 @ [Digital_Commerce]
                else if isConstruction then r2 @ [Skilled_Trades]
                else if isProfessional then r2 @ [Technology_Upskilling]
                else if isEducation then r2 @ [Educational_Support]
                else r2 @ [Cross_Sector]);
          r4 = (if hasSomeCollege b then r3 @ [College_Completion] else r3);
          r5 = r4 @ [Internal_Mobility];
          r6 = (if isEntrepreneurshipViable target then r5 @ [Self_Employment] else r5)
      in r6)"

section \<open>Dashboard state\<close>

text \<open>
  The state hooks of \<open>App\<close> that the aggregation pipeline reads. Every derived value is a
  function of the state, recomputed after each update.
\<close>

record AppState =
  geography :: MSACategory
  sector :: string
  selectedCohort :: CohortType
  targetOccupation :: "string option"
  rawData :: "DataRow list"

definition initialState :: AppState where
  "initialState =
     \<lparr> geography = All_MSA, sector = ''Manufacturing'', selectedCohort = All_Stranded,
       targetOccupation = None, rawData = [] \<rparr>"

definition App_stats :: "AppState \<Rightarrow> Stats" where
  "App_stats s = stats (filteredByScope (rawData s) (geography s) (sector s))"

definition App_cohortBreakdowns :: "AppState \<Rightarrow> Breakdowns" where
  "App_cohortBreakdowns s =
     cohortBreakdowns (filteredByScope (rawData s) (geography s) (sector s)) (selectedCohort s)"

definition App_recommendations :: "AppState \<Rightarrow> strategy list" where
  "App_recommendations s =
     recommendations (App_cohortBreakdowns s) (sector s) (targetOccupation s)"

text \<open>\<open>!targetOccupation\<close>: true for \<open>null\<close> and for the empty string.\<close>

definition falsy :: "string option \<Rightarrow> bool" where
  "falsy t = (case t of None \<Rightarrow> True | Some s \<Rightarrow> s = [])"

text \<open>
  The effect that depends on the occupation breakdown and the target occupation. It is run
  after every state update; a second run right after it changes nothing, since it either has
  just stored a label or met a false condition.
\<close>

definition autoPopulate :: "AppState \<Rightarrow> AppState" where
  "autoPopulate s =
     (let occs = occ (App_cohortBreakdowns s) in
      if length occs > 0 \<and> falsy (targetOccupation s)
      then s\<lparr>targetOccupation := Some (fst (occs ! 0))\<rparr>
      else s)"

text \<open>
  The state updates: the loader's result arriving, the three selectors, and a click on the
  \<open>i\<close>-th of the (at most ten) occupation tiles shown.
\<close>

datatype event =
    Data_Loaded "CsvRow list option"
  | Set_Geography MSACategory
  | Set_Sector string
  | Set_Selected_Cohort CohortType
  | Click_Occupation nat

fun update :: "AppState \<Rightarrow> event \<Rightarrow> AppState" where
  "update s (Data_Loaded results) = s\<lparr>rawData := loadCSVData results\<rparr>"
| "update s (Set_Geography g) = s\<lparr>geography := g\<rparr>"
| "update s (Set_Sector x) = s\<lparr>sector := x\<rparr>"
| "update s (Set_Selected_Cohort c) = s\<lparr>selectedCohort := c\<rparr>"
| "update s (Click_Occupation i) =
     (let tiles = take 10 (occ (App_cohortBreakdowns s)) in
      if i < length tiles then s\<lparr>targetOccupation := Some (fst (tiles ! i))\<rparr> else s)"

definition step :: "AppState \<Rightarrow> event \<Rightarrow> AppState" where
  "step s ev = autoPopulate (update s ev)"

definition run :: "event list \<Rightarrow> AppState" where
  "run evs = foldl step (autoPopulate initialState) evs"

fun selection_change :: "event \<Rightarrow> bool" where
  "selection_change (Set_Geography g) = True"
| "selection_change (Set_Sector x) = True"
| "selection_change (Set_Selected_Cohort c) = True"
| "selection_change (Data_Loaded results) = False"
| "selection_change (Click_Occupation i) = False"

subsection \<open>The "Stranded Rate" tile\<close>

text \<open>\<open>x * 100\<close> on a quotient, and \<open>toFixed(0)\<close>: the nearest integer, a tie away from zero
  (the sign of a result that rounds to zero is not kept).\<close>

fun js_times100 :: "jsnum \<Rightarrow> jsnum" where
  "js_times100 (Fin x) = Fin (x * 100)"
| "js_times100 PosInf = PosInf"
| "js_times100 NegInf = NegInf"
| "js_times100 NaN = NaN"

datatype fixed0 = Digits int | Text_NaN | Text_Infinity | Text_Minus_Infinity

fun toFixed0 :: "jsnum \<Rightarrow> fixed0" where
  "toFixed0 (Fin x) = Digits (if x < 0 then - \<lfloor>- x + 1 / 2\<rfloor> else \<lfloor>x + 1 / 2\<rfloor>)"
| "toFixed0 PosInf = Text_Infinity"
| "toFixed0 NegInf = Text_Minus_Infinity"
| "toFixed0 NaN = Text_NaN"

definition strandedRate :: "Stats \<Rightarrow> jsnum" where
  "strandedRate s = js_times100 (js_div (lw s) (total s))"

definition strandedRateText :: "Stats \<Rightarrow> fixed0" where
  "strandedRateText s = toFixed0 (strandedRate s)"

section \<open>Well-formed rows\<close>

text \<open>The data model's invariant on the three cohort weights of a row.\<close>

definition nonneg_row :: "DataRow \<Rightarrow> bool" where
  "nonneg_row d \<longleftrightarrow>
     0 \<le> n_weighted_low_wage d \<and> 0 \<le> n_weighted_underemployed d \<and> 0 \<le> n_weighted_stalled d"

section \<open>Concrete inputs\<close>

text \<open>The two-row scenario: a Nashville and a Memphis row of the same sector.\<close>

definition scenario_rows :: "DataRow list" where
  "scenario_rows =
     [\<lparr> msa_category = ''Nashville'', NAICS2_NAME = ''Manufacturing'', n_weighted = 500,
        n_weighted_low_wage = 100, n_weighted_underemployed = 50, n_weighted_stalled = 30,
        education_level_label = ''HS diploma/GED'', soc_2019_5_acs_name = ''Machinist'',
        age_group = ''25-34'' \<rparr>,
      \<lparr> msa_category = ''Memphis'', NAICS2_NAME = ''Manufacturing'', n_weighted = 900,
        n_weighted_low_wage = 200, n_weighted_underemployed = 70, n_weighted_stalled = 40,
        education_level_label = ''Some college'', soc_2019_5_acs_name = ''Welder'',
        age_group = ''35-44'' \<rparr>]"

definition scenario_state :: AppState where
  "scenario_state =
     \<lparr> geography = Nashville, sector = ''Manufacturing'', selectedCohort = All_Stranded,
       targetOccupation = Some ''Machinist'', rawData = scenario_rows \<rparr>"

text \<open>The scenario with a third row of the same scope whose cohort weights are all zero.\<close>

definition idle_row :: DataRow where
  "idle_row =
     \<lparr> msa_category = ''Knoxville'', NAICS2_NAME = ''Manufacturing'', n_weighted = 40,
       n_weighted_low_wage = 0, n_weighted_underemployed = 0, n_weighted_stalled = 0,
       education_level_label = ''Unknown'', soc_2019_5_acs_name = ''Inspector'',
       age_group = ''45-54'' \<rparr>"

section \<open>Placement of labels outside an ordering table\<close>

text \<open>
  \<open>unlisted_last tbl es\<close>: every entry whose label is in the table stands before every
  entry whose label is not. \<open>unlisted_first tbl es\<close>: every entry whose label is not in the
  table stands before every entry whose label is.
\<close>

definition unlisted_last :: "string list \<Rightarrow> breakdown \<Rightarrow> bool" where
  "unlisted_last tbl es \<longleftrightarrow>
     (\<forall>i\<in>{0..<length es}. \<forall>j\<in>{0..<length es}.
        fst (es ! i) \<in> set tbl \<and> fst (es ! j) \<notin> set tbl \<longrightarrow> i < j)"

definition unlisted_first :: "string list \<Rightarrow> breakdown \<Rightarrow> bool" where
  "unlisted_first tbl es \<longleftrightarrow>
     (\<forall>i\<in>{0..<length es}. \<forall>j\<in>{0..<length es}.
        fst (es ! i) \<in> set tbl \<and> fst (es ! j) \<notin> set tbl \<longrightarrow> j < i)"

section \<open>The share of the highest credential levels, as specified\<close>

text \<open>
  The two highest credential levels of the ordering table, and their summed weight in a
  breakdown: the numerator that the specification gives for the high-education share. The
  classifier does not use these; they are compared with \<open>highEduCount\<close> below.
\<close>

definition two_highest_levels :: "string list" where
  "two_highest_levels = drop (length EDUCATION_ORDER - 2) EDUCATION_ORDER"

definition two_highest_levels_weight :: "Breakdowns \<Rightarrow> rat" where
  "two_highest_levels_weight b =
     sum_vals (filter (\<lambda>a. fst a \<in> set two_highest_levels) (edu b))"

text \<open>The levels from Bachelor's degree upward in the table, and the label \<open>Graduate degree\<close>
  of the earlier taxonomy.\<close>

definition bachelor_or_higher :: "string \<Rightarrow> bool" where
  "bachelor_or_higher l \<longleftrightarrow>
     indexOf EDUCATION_ORDER ''Bachelor's degree'' \<le> indexOf EDUCATION_ORDER l
     \<or> l = ''Graduate degree''"

text \<open>A Bachelor's row and a high-school row of equal weight.\<close>

definition degree_rows :: "DataRow list" where
  "degree_rows =
     [\<lparr> msa_category = ''Nashville'', NAICS2_NAME = ''Manufacturing'', n_weighted = 50,
        n_weighted_low_wage = 10, n_weighted_underemployed = 0, n_weighted_stalled = 0,
        education_level_label = ''Bachelor's degree'', soc_2019_5_acs_name = ''Engineer'',
        age_group = ''25-34'' \<rparr>,
      \<lparr> msa_category = ''Nashville'', NAICS2_NAME = ''Manufacturing'', n_weighted = 50,
        n_weighted_low_wage = 10, n_weighted_underemployed = 0, n_weighted_stalled = 0,
        education_level_label = ''HS diploma/GED'', soc_2019_5_acs_name = ''Machinist'',
        age_group = ''45-54'' \<rparr>]"

text \<open>Two parsed CSV records of different sectors; the second lacks an occupation name.\<close>

definition sector_csv :: "CsvRow list" where
  "sector_csv =
     [\<lparr> csv_msa_category = Some ''Nashville'', csv_naics2_title = Some ''Manufacturing'',
        csv_n_weighted = Some 500, csv_n_low_wage_weighted = Some 100,
        csv_n_underemployed_weighted = Some 50, csv_n_stranded_weighted = Some 30,
        csv_education_level_label = Some ''HS diploma/GED'',
        csv_SOC_2019_5_ACS_NAME = Some ''Machinist'', csv_age_group = Some ''25-34'' \<rparr>,
      \<lparr> csv_msa_category = Some ''Memphis'', csv_naics2_title = Some ''Retail Trade'',
        csv_n_weighted = Some 900, csv_n_low_wage_weighted = Some 200,
        csv_n_underemployed_weighted = Some 70, csv_n_stranded_weighted = Some 40,
        csv_education_level_label = Some ''Some college'',
        csv_SOC_2019_5_ACS_NAME = None, csv_age_group = Some ''35-44'' \<rparr>]"

text \<open>The invariant of the dashboard state: no loaded row has an empty occupation name, and
  a target occupation that is set is not the empty label.\<close>

definition labelled :: "AppState \<Rightarrow> bool" where
  "labelled s \<longleftrightarrow>
     list_all (\<lambda>d. soc_2019_5_acs_name d \<noteq> []) (rawData s)
     \<and> (case targetOccupation s of None \<Rightarrow> True | Some t \<Rightarrow> t \<noteq> [])"

text \<open>Two rows of one education level whose low-wage weights cancel (outside the data
  model's invariant).\<close>

definition cancelling_rows :: "DataRow list" where
  "cancelling_rows =
     [\<lparr> msa_category = ''Nashville'', NAICS2_NAME = ''Manufacturing'', n_weighted = 50,
        n_weighted_low_wage = 5, n_weighted_underemployed = 0, n_weighted_stalled = 0,
        education_level_label = ''HS diploma/GED'', soc_2019_5_acs_name = ''Machinist'',
        age_group = ''18-24'' \<rparr>,
      \<lparr> msa_category = ''Nashville'', NAICS2_NAME = ''Manufacturing'', n_weighted = 50,
        n_weighted_low_wage = - 5, n_weighted_underemployed = 0, n_weighted_stalled = 0,
        education_level_label = ''HS diploma/GED'', soc_2019_5_acs_name = ''Welder'',
        age_group = ''35-44'' \<rparr>]"

section \<open>The row's contribution to the breakdowns\<close>

lemma get_or_zero_assign:
  "get_or_zero (assign k v m) k' = (if k' = k then v else get_or_zero m k')"
  by (induction m) (auto simp: get_or_zero_def)

text \<open>
  Claim C1. With the cohort selector "All Stranded" the weight a scoped row adds is
  \<open>lowWage + underemployed + stalled\<close>: processing the row raises the entry of its
  education label, of its age group and of its occupation by exactly that sum. A single row
  with weights 10, 5 and 3 gives breakdowns whose only entries are the row's labels, each
  with weight 18.
\<close>

theorem all_stranded_contribution:
  "cohortWeight All_Stranded d
     = n_weighted_low_wage d + n_weighted_underemployed d + n_weighted_stalled d
   \<and> get_or_zero (edu (accumulate All_Stranded acc d)) (education_level_label d)
     = get_or_zero (edu acc) (education_level_label d)
       + (n_weighted_low_wage d + n_weighted_underemployed d + n_weighted_stalled d)
   \<and> get_or_zero (age (accumulate All_Stranded acc d)) (age_group d)
     = get_or_zero (age acc) (age_group d)
       + (n_weighted_low_wage d + n_weighted_underemployed d + n_weighted_stalled d)
   \<and> get_or_zero (occ (accumulate All_Stranded acc d)) (soc_2019_5_acs_name d)
     = get_or_zero (occ acc) (soc_2019_5_acs_name d)
       + (n_weighted_low_wage d + n_weighted_underemployed d + n_weighted_stalled d)
   \<and> cohortBreakdowns
       [d\<lparr>n_weighted_low_wage := 10, n_weighted_underemployed := 5, n_weighted_stalled := 3\<rparr>]
       All_Stranded
     = \<lparr> edu = [(education_level_label d, 18)], age = [(age_group d, 18)],
         occ = [(soc_2019_5_acs_name d, 18)] \<rparr>"
proof -
  have w: "cohortWeight All_Stranded d
     = n_weighted_low_wage d + n_weighted_underemployed d + n_weighted_stalled d"
    by (simp add: cohortWeight_def)
  have single: "cohortBreakdowns
       [d\<lparr>n_weighted_low_wage := 10, n_weighted_underemployed := 5, n_weighted_stalled := 3\<rparr>]
       All_Stranded
     = \<lparr> edu = [(education_level_label d, 18)], age = [(age_group d, 18)],
         occ = [(soc_2019_5_acs_name d, 18)] \<rparr>"
    by (simp add: cohortBreakdowns_def accumulate_def cohortWeight_def get_or_zero_def Let_def)
  show ?thesis
    using w single by (simp add: accumulate_def Let_def get_or_zero_assign)
qed

section \<open>The scope filter\<close>

lemma filteredByScope_drop_other_regions:
  "g \<noteq> All_MSA \<Longrightarrow>
   filteredByScope (filter (\<lambda>d. msa_category d = msa_name g) rows) g x
     = filteredByScope rows g x"
  by (induction rows) (auto simp: filteredByScope_def)

text \<open>
  Claim C2. The scope filter returns exactly the rows (each as often as it occurs in the
  row set) whose sector label equals the selected sector and whose region equals the
  selected region, or every row of that sector when the wildcard is selected. A row of
  another region reaches no aggregate: with a region selected, removing all rows of other
  regions from the row set changes neither the stats, nor the breakdowns, nor the
  recommendation list.
\<close>

theorem scope_filter_exact:
  "(d \<in> set (filteredByScope rows g x) \<longleftrightarrow>
      d \<in> set rows \<and> NAICS2_NAME d = x \<and> (g = All_MSA \<or> msa_category d = msa_name g))
   \<and> count (mset (filteredByScope rows g x)) d =
      (if NAICS2_NAME d = x \<and> (g = All_MSA \<or> msa_category d = msa_name g)
       then count (mset rows) d else 0)
   \<and> (geography s \<noteq> All_MSA \<longrightarrow>
        App_stats (s\<lparr>rawData := filter (\<lambda>d. msa_category d = msa_name (geography s)) (rawData s)\<rparr>)
          = App_stats s
      \<and> App_cohortBreakdowns
          (s\<lparr>rawData := filter (\<lambda>d. msa_category d = msa_name (geography s)) (rawData s)\<rparr>)
          = App_cohortBreakdowns s
      \<and> App_recommendations
          (s\<lparr>rawData := filter (\<lambda>d. msa_category d = msa_name (geography s)) (rawData s)\<rparr>)
          = App_recommendations s)"
proof -
  have mem: "d \<in> set (filteredByScope rows g x) \<longleftrightarrow>
      d \<in> set rows \<and> NAICS2_NAME d = x \<and> (g = All_MSA \<or> msa_category d = msa_name g)"
    by (auto simp: filteredByScope_def)
  have cnt: "count (mset (filteredByScope rows g x)) d =
      (if NAICS2_NAME d = x \<and> (g = All_MSA \<or> msa_category d = msa_name g)
       then count (mset rows) d else 0)"
    by (auto simp: filteredByScope_def)
  have agg: "App_stats (s\<lparr>rawData := filter (\<lambda>d. msa_category d = msa_name (geography s)) (rawData s)\<rparr>)
          = App_stats s
      \<and> App_cohortBreakdowns
          (s\<lparr>rawData := filter (\<lambda>d. msa_category d = msa_name (geography s)) (rawData s)\<rparr>)
          = App_cohortBreakdowns s
      \<and> App_recommendations
          (s\<lparr>rawData := filter (\<lambda>d. msa_category d = msa_name (geography s)) (rawData s)\<rparr>)
          = App_recommendations s" if "geography s \<noteq> All_MSA"
    using filteredByScope_drop_other_regions [OF that, of "rawData s" "sector s"]
    by (simp add: App_stats_def App_cohortBreakdowns_def App_recommendations_def)
  show ?thesis using mem cnt agg by blast
qed

theorem scope_filter_exact_witness:
  "scenario_rows ! 1 \<notin> set (filteredByScope scenario_rows Nashville ''Manufacturing'')
   \<and> geography scenario_state \<noteq> All_MSA
   \<and> App_stats scenario_state = \<lparr> total = 500, lw = 100, ue = 50, st = 30 \<rparr>
   \<and> App_cohortBreakdowns scenario_state
       = \<lparr> edu = [(''HS diploma/GED'', 180)], age = [(''25-34'', 180)],
           occ = [(''Machinist'', 180)] \<rparr>"
proof -
  have g: "geography scenario_state \<noteq> All_MSA"
    by (simp add: scenario_state_def)
  have kept: "filter (\<lambda>d. msa_category d = msa_name (geography scenario_state))
                (rawData scenario_state) = [scenario_rows ! 0]"
    by (simp add: scenario_state_def scenario_rows_def)
  have out: "scenario_rows ! 1 \<notin> set (filteredByScope scenario_rows Nashville ''Manufacturing'')"
    using scope_filter_exact [of "scenario_rows ! 1" scenario_rows Nashville "''Manufacturing''"]
    by (simp add: scenario_rows_def)
  have st: "App_stats (scenario_state\<lparr>rawData := [scenario_rows ! 0]\<rparr>)
      = \<lparr> total = 500, lw = 100, ue = 50, st = 30 \<rparr>"
    by (simp add: App_stats_def scenario_state_def scenario_rows_def filteredByScope_def
        stats_def)
  have bd: "App_cohortBreakdowns (scenario_state\<lparr>rawData := [scenario_rows ! 0]\<rparr>)
      = \<lparr> edu = [(''HS diploma/GED'', 180)], age = [(''25-34'', 180)],
          occ = [(''Machinist'', 180)] \<rparr>"
    by (simp add: App_cohortBreakdowns_def scenario_state_def scenario_rows_def
        filteredByScope_def cohortBreakdowns_def accumulate_def cohortWeight_def
        get_or_zero_def Let_def)
  from scope_filter_exact [of "scenario_rows ! 1" scenario_rows Nashville "''Manufacturing''"
      scenario_state] g kept st bd out
  show ?thesis by simp
qed

section \<open>Totals of the three breakdowns\<close>

lemma foldl_add_snd: "foldl (\<lambda>s a. s + snd a) z es = z + sum_list (map snd es)"
  by (induction es arbitrary: z) (simp_all add: add.assoc)

lemma sum_vals_sum_list: "sum_vals es = sum_list (map snd es)"
  by (simp add: sum_vals_def foldl_add_snd)

lemma sum_list_assign:
  "sum_list (map snd (assign k v m)) = sum_list (map snd m) - get_or_zero m k + v"
  by (induction m) (auto simp: get_or_zero_def)

lemma sum_vals_sort_key: "sum_vals (sort_key f es) = sum_vals es"
proof -
  have "sum_list (map snd (sort_key f es)) = sum_mset (mset (map snd (sort_key f es)))"
    by (simp only: sum_mset_sum_list)
  also have "\<dots> = sum_mset (mset (map snd es))"
    by simp
  also have "\<dots> = sum_list (map snd es)"
    by (simp only: sum_mset_sum_list)
  finally show ?thesis
    by (simp add: sum_vals_sum_list)
qed

lemma sum_vals_filter_pos:
  "\<forall>a\<in>set es. 0 \<le> snd a \<Longrightarrow> sum_vals (filter (\<lambda>a. snd a > 0) es) = sum_vals es"
  by (induction es) (auto simp: sum_vals_sum_list)

lemma set_assign: "set (assign k v m) \<subseteq> insert (k, v) (set m)"
  by (induction m) (auto split: if_splits)

lemma get_or_zero_nonneg: "\<forall>a\<in>set m. 0 \<le> snd a \<Longrightarrow> 0 \<le> get_or_zero m k"
  by (fastforce simp: get_or_zero_def split: option.splits dest: map_of_SomeD)

lemma assign_nonneg:
  "\<forall>a\<in>set m. 0 \<le> snd a \<Longrightarrow> 0 \<le> w \<Longrightarrow>
   \<forall>a\<in>set (assign k (get_or_zero m k + w) m). 0 \<le> snd a"
  using set_assign [of k "get_or_zero m k + w" m] get_or_zero_nonneg [of m k]
  by fastforce

lemma cohortWeight_nonneg: "nonneg_row d \<Longrightarrow> 0 \<le> cohortWeight c d"
  by (simp add: nonneg_row_def cohortWeight_def)

text \<open>What the loop has accumulated after the scoped rows, from any starting tables.\<close>

lemma foldl_accumulate_sums:
  "sum_list (map snd (edu (foldl (accumulate c) acc rows)))
     = sum_list (map snd (edu acc)) + sum_list (map (cohortWeight c) rows)
   \<and> sum_list (map snd (age (foldl (accumulate c) acc rows)))
     = sum_list (map snd (age acc)) + sum_list (map (cohortWeight c) rows)
   \<and> sum_list (map snd (occ (foldl (accumulate c) acc rows)))
     = sum_list (map snd (occ acc)) + sum_list (map (cohortWeight c) rows)"
proof (induction rows arbitrary: acc)
  case Nil
  show ?case by simp
next
  case (Cons d rows)
  have one: "sum_list (map snd (edu (accumulate c acc d)))
               = sum_list (map snd (edu acc)) + cohortWeight c d"
    "sum_list (map snd (age (accumulate c acc d)))
               = sum_list (map snd (age acc)) + cohortWeight c d"
    "sum_list (map snd (occ (accumulate c acc d)))
               = sum_list (map snd (occ acc)) + cohortWeight c d"
    by (simp_all add: accumulate_def Let_def sum_list_assign)
  show ?case
    using Cons.IH [of "accumulate c acc d"] by (simp add: one)
qed

lemma foldl_accumulate_occ_nonneg:
  "\<forall>d\<in>set rows. nonneg_row d \<Longrightarrow> \<forall>a\<in>set (occ acc). 0 \<le> snd a \<Longrightarrow>
   \<forall>a\<in>set (occ (foldl (accumulate c) acc rows)). 0 \<le> snd a"
proof (induction rows arbitrary: acc)
  case Nil
  then show ?case by simp
next
  case (Cons d rows)
  have "\<forall>a\<in>set (occ (accumulate c acc d)). 0 \<le> snd a"
    using assign_nonneg [OF Cons.prems(2) cohortWeight_nonneg, of d "soc_2019_5_acs_name d" c]
      Cons.prems(1)
    by (simp add: accumulate_def Let_def)
  then show ?case
    using Cons.IH [of "accumulate c acc d"] Cons.prems(1) by simp
qed

lemma breakdown_totals_sum:
  assumes "\<forall>d\<in>set scoped. nonneg_row d"
  shows "sum_vals (edu (cohortBreakdowns scoped c)) = sum_list (map (cohortWeight c) scoped)
       \<and> sum_vals (age (cohortBreakdowns scoped c)) = sum_list (map (cohortWeight c) scoped)
       \<and> sum_vals (occ (cohortBreakdowns scoped c)) = sum_list (map (cohortWeight c) scoped)"
proof -
  let ?acc = "foldl (accumulate c) \<lparr> edu = [], age = [], occ = [] \<rparr> scoped"
  have sums: "sum_vals (edu ?acc) = sum_list (map (cohortWeight c) scoped)"
    "sum_vals (age ?acc) = sum_list (map (cohortWeight c) scoped)"
    "sum_vals (occ ?acc) = sum_list (map (cohortWeight c) scoped)"
    using foldl_accumulate_sums [of c "\<lparr> edu = [], age = [], occ = [] \<rparr>" scoped]
    by (simp_all add: sum_vals_sum_list)
  have "\<forall>a\<in>set (occ ?acc). 0 \<le> snd a"
    using foldl_accumulate_occ_nonneg [OF assms, of "\<lparr> edu = [], age = [], occ = [] \<rparr>" c]
    by simp
  then have "\<forall>a\<in>set (sort_key (\<lambda>a. - snd a) (occ ?acc)). 0 \<le> snd a"
    by simp
  then have "sum_vals (filter (\<lambda>a. snd a > 0) (sort_key (\<lambda>a. - snd a) (occ ?acc)))
      = sum_vals (occ ?acc)"
    by (simp add: sum_vals_filter_pos sum_vals_sort_key)
  then show ?thesis
    using sums by (simp add: cohortBreakdowns_def Let_def sum_vals_sort_key)
qed



section \<open>Order of the occupation breakdown\<close>

lemma sorted_desc_filter_sort:
  "sorted (map (\<lambda>a. - snd a) (filter P (sort_key (\<lambda>a. - snd a) (es :: breakdown))))"
  by (rule sorted_filter) (rule sorted_sort_key)

lemma sorted_neg_adjacent:
  assumes "sorted (map (\<lambda>a. - snd a) (es :: breakdown))" and "Suc i < length es"
  shows "snd (es ! Suc i) \<le> snd (es ! i)"
proof -
  have "map (\<lambda>a. - snd a) es ! i \<le> map (\<lambda>a. - snd a) es ! Suc i"
    using assms by (intro sorted_nth_mono) simp_all
  then show ?thesis
    using assms(2) by simp
qed

text \<open>
  Claim C4. For every scoped row set and cohort, the occupation breakdown is in descending
  order of aggregated weight (each entry's weight is at least the next entry's) and has no
  entry of weight zero.
\<close>

theorem occupation_breakdown_descending:
  "(\<forall>i. Suc i < length (occ (cohortBreakdowns scoped c)) \<longrightarrow>
        snd (occ (cohortBreakdowns scoped c) ! Suc i) \<le> snd (occ (cohortBreakdowns scoped c) ! i))
   \<and> (\<forall>a\<in>set (occ (cohortBreakdowns scoped c)). snd a \<noteq> 0)"
proof -
  let ?acc = "foldl (accumulate c) \<lparr> edu = [], age = [], occ = [] \<rparr> scoped"
  have occ_eq: "occ (cohortBreakdowns scoped c)
      = filter (\<lambda>a. snd a > 0) (sort_key (\<lambda>a. - snd a) (occ ?acc))"
    by (simp add: cohortBreakdowns_def Let_def)
  have "sorted (map (\<lambda>a. - snd a) (occ (cohortBreakdowns scoped c)))"
    unfolding occ_eq by (rule sorted_desc_filter_sort)
  then have desc: "\<forall>i. Suc i < length (occ (cohortBreakdowns scoped c)) \<longrightarrow>
        snd (occ (cohortBreakdowns scoped c) ! Suc i) \<le> snd (occ (cohortBreakdowns scoped c) ! i)"
    using sorted_neg_adjacent by blast
  have "\<forall>a\<in>set (occ (cohortBreakdowns scoped c)). snd a \<noteq> 0"
    unfolding occ_eq by auto
  with desc show ?thesis by blast
qed

theorem occupation_breakdown_descending_witness:
  "occ (cohortBreakdowns (scenario_rows @ [idle_row]) Low_Wage)
     = [(''Welder'', 200), (''Machinist'', 100)]
   \<and> snd (occ (cohortBreakdowns (scenario_rows @ [idle_row]) Low_Wage) ! Suc 0)
       \<le> snd (occ (cohortBreakdowns (scenario_rows @ [idle_row]) Low_Wage) ! 0)
   \<and> snd (occ (cohortBreakdowns (scenario_rows @ [idle_row]) Low_Wage) ! 0) \<noteq> 0"
proof -
  have val: "occ (cohortBreakdowns (scenario_rows @ [idle_row]) Low_Wage)
     = [(''Welder'', 200), (''Machinist'', 100)]"
    by (simp add: cohortBreakdowns_def scenario_rows_def idle_row_def accumulate_def
        cohortWeight_def get_or_zero_def Let_def)
  then have len: "Suc 0 < length (occ (cohortBreakdowns (scenario_rows @ [idle_row]) Low_Wage))"
    and mem: "occ (cohortBreakdowns (scenario_rows @ [idle_row]) Low_Wage) ! 0
              \<in> set (occ (cohortBreakdowns (scenario_rows @ [idle_row]) Low_Wage))"
    by simp_all
  show ?thesis
    using occupation_breakdown_descending [of "scenario_rows @ [idle_row]" Low_Wage] len mem val
    by blast
qed

section \<open>Labels outside the ordering tables\<close>

lemma indexOf_range: "- 1 \<le> indexOf xs x"
  by (induction xs) (simp_all add: Let_def)

lemma indexOf_listed: "x \<in> set xs \<Longrightarrow> 0 \<le> indexOf xs x"
  by (induction xs) (auto simp: Let_def)

lemma indexOf_unlisted: "x \<notin> set xs \<Longrightarrow> indexOf xs x = - 1"
  by (induction xs) (auto simp: Let_def)

lemma sort_by_index_unlisted_first:
  "unlisted_first tbl (sort_key (\<lambda>a. indexOf tbl (fst a)) es)"
proof -
  let ?key = "\<lambda>a :: string \<times> rat. indexOf tbl (fst a)"
  let ?ss = "sort_key ?key es"
  have srt: "sorted (map ?key ?ss)"
    by (rule sorted_sort_key)
  have "j < i" if i: "i < length ?ss" and j: "j < length ?ss"
    and li: "fst (?ss ! i) \<in> set tbl" and uj: "fst (?ss ! j) \<notin> set tbl" for i j
  proof (rule ccontr)
    assume "\<not> j < i"
    then have "i \<le> j" by simp
    then have "map ?key ?ss ! i \<le> map ?key ?ss ! j"
      using srt j by (intro sorted_nth_mono) simp_all
    then have "?key (?ss ! i) \<le> ?key (?ss ! j)"
      using i j by simp
    moreover have "0 \<le> ?key (?ss ! i)"
      using li by (rule indexOf_listed)
    moreover have "?key (?ss ! j) = - 1"
      using uj by (rule indexOf_unlisted)
    ultimately show False by simp
  qed
  then show ?thesis
    unfolding unlisted_first_def by auto
qed

lemma map_fst_assign:
  "map fst (assign k v m) = (if k \<in> set (map fst m) then map fst m else map fst m @ [k])"
  by (induction k v m rule: assign.induct) (simp_all del: set_map)

lemma keys_assign: "set (map fst (assign k v m)) = insert k (set (map fst m))"
  unfolding map_fst_assign by (simp del: set_map) auto

lemma foldl_accumulate_keys:
  "fst ` set (edu (foldl (accumulate c) acc rows))
     = fst ` set (edu acc) \<union> education_level_label ` set rows
   \<and> fst ` set (age (foldl (accumulate c) acc rows))
     = fst ` set (age acc) \<union> age_group ` set rows"
proof (induction rows arbitrary: acc)
  case Nil
  show ?case by simp
next
  case (Cons d rows)
  have one: "fst ` set (edu (accumulate c acc d))
               = insert (education_level_label d) (fst ` set (edu acc))"
    "fst ` set (age (accumulate c acc d)) = insert (age_group d) (fst ` set (age acc))"
    using keys_assign [of "education_level_label d" _ "edu acc"]
      keys_assign [of "age_group d" _ "age acc"]
    by (simp_all add: accumulate_def Let_def)
  show ?case
    using Cons.IH [of "accumulate c acc d"] by (simp add: one)
qed

text \<open>
  Claim C5, as stated: an education or age label absent from the ordering table is placed
  after every entry whose label is in the table. This fails: \<open>indexOf\<close> gives \<open>-1\<close> for
  such a label, which is below every position of the table. With the rows of the scenario
  and a row labelled \<open>Unknown\<close> (the loader's default), the \<open>Unknown\<close> entry comes first
  although its row comes last.
\<close>

theorem unlisted_label_sorts_last_counterexample:
  "\<not> unlisted_last EDUCATION_ORDER
       (edu (cohortBreakdowns (scenario_rows @ [idle_row]) Low_Wage))"
proof -
  have val: "edu (cohortBreakdowns (scenario_rows @ [idle_row]) Low_Wage)
      = [(''Unknown'', 0), (''HS diploma/GED'', 100), (''Some college'', 200)]"
    by (simp add: cohortBreakdowns_def scenario_rows_def idle_row_def accumulate_def
        cohortWeight_def get_or_zero_def Let_def EDUCATION_ORDER_def)
  show ?thesis
    unfolding unlisted_last_def val
    by (simp add: atLeast0_lessThan_Suc EDUCATION_ORDER_def)
qed

text \<open>
  Claim C5, amended. An education or age label absent from the ordering table is placed
  before every entry whose label is in the table, in the education and in the age
  breakdown; sorting loses no entry: the labels of the education (age) breakdown are exactly
  the education labels (age groups) of the scoped rows.
\<close>

theorem unlisted_label_sorts_first:
  "unlisted_first EDUCATION_ORDER (edu (cohortBreakdowns scoped c))
   \<and> unlisted_first AGE_GROUPS (age (cohortBreakdowns scoped c))
   \<and> fst ` set (edu (cohortBreakdowns scoped c)) = education_level_label ` set scoped
   \<and> fst ` set (age (cohortBreakdowns scoped c)) = age_group ` set scoped"
  using foldl_accumulate_keys [of c "\<lparr> edu = [], age = [], occ = [] \<rparr>" scoped]
  by (simp add: cohortBreakdowns_def Let_def sort_by_index_unlisted_first)

theorem unlisted_label_sorts_first_witness:
  "edu (cohortBreakdowns (scenario_rows @ [idle_row]) Stalled)
     = [(''Unknown'', 0), (''HS diploma/GED'', 30), (''Some college'', 40)]
   \<and> fst (edu (cohortBreakdowns (scenario_rows @ [idle_row]) Stalled) ! 1) \<in> set EDUCATION_ORDER
   \<and> fst (edu (cohortBreakdowns (scenario_rows @ [idle_row]) Stalled) ! 0) \<notin> set EDUCATION_ORDER
   \<and> (0::nat) < 1"
proof -
  have val: "edu (cohortBreakdowns (scenario_rows @ [idle_row]) Stalled)
     = [(''Unknown'', 0), (''HS diploma/GED'', 30), (''Some college'', 40)]"
    by (simp add: cohortBreakdowns_def scenario_rows_def idle_row_def accumulate_def
        cohortWeight_def get_or_zero_def Let_def EDUCATION_ORDER_def)
  have "unlisted_first EDUCATION_ORDER (edu (cohortBreakdowns (scenario_rows @ [idle_row]) Stalled))"
    using unlisted_label_sorts_first [of "scenario_rows @ [idle_row]" Stalled] by simp
  then show ?thesis
    using val by (simp add: unlisted_first_def EDUCATION_ORDER_def)
qed

section \<open>The weight of a set of labels\<close>

lemma get_or_zero_Cons:
  "get_or_zero ((k', v') # m) k = (if k' = k then v' else get_or_zero m k)"
  by (simp add: get_or_zero_def)

lemma sum_filter_assign:
  "sum_list (map snd (filter (\<lambda>a. P (fst a)) (assign k v m)))
     = sum_list (map snd (filter (\<lambda>a. P (fst a)) m)) + (if P k then v - get_or_zero m k else 0)"
proof (induction k v m rule: assign.induct)
  case (1 k v)
  show ?case by (simp add: get_or_zero_def)
next
  case (2 k v k' v' m)
  then show ?case by (simp add: get_or_zero_Cons)
qed

lemma sum_filter_sort_key:
  "sum_list (map snd (filter Q (sort_key f (es :: breakdown))))
     = sum_list (map snd (filter Q es))"
proof -
  have "sum_list (map snd (filter Q (sort_key f es)))
      = sum_mset (mset (map snd (filter Q (sort_key f es))))"
    by (simp only: sum_mset_sum_list)
  also have "\<dots> = sum_mset (mset (map snd (filter Q es)))"
    by simp
  also have "\<dots> = sum_list (map snd (filter Q es))"
    by (simp only: sum_mset_sum_list)
  finally show ?thesis .
qed

lemma foldl_accumulate_edu_weight:
  "sum_list (map snd (filter (\<lambda>a. P (fst a)) (edu (foldl (accumulate c) acc rows))))
     = sum_list (map snd (filter (\<lambda>a. P (fst a)) (edu acc)))
       + sum_list (map (cohortWeight c) (filter (\<lambda>d. P (education_level_label d)) rows))"
proof (induction rows arbitrary: acc)
  case Nil
  show ?case by simp
next
  case (Cons d rows)
  have one: "sum_list (map snd (filter (\<lambda>a. P (fst a)) (edu (accumulate c acc d))))
      = sum_list (map snd (filter (\<lambda>a. P (fst a)) (edu acc)))
        + (if P (education_level_label d) then cohortWeight c d else 0)"
    by (simp add: accumulate_def Let_def sum_filter_assign)
  show ?case
    using Cons.IH [of "accumulate c acc d"] by (simp add: one)
qed

lemma edu_label_weight:
  "sum_vals (filter (\<lambda>a. P (fst a)) (edu (cohortBreakdowns scoped c)))
     = sum_list (map (cohortWeight c) (filter (\<lambda>d. P (education_level_label d)) scoped))"
  using foldl_accumulate_edu_weight [of P c "\<lparr> edu = [], age = [], occ = [] \<rparr>" scoped]
  by (simp add: cohortBreakdowns_def Let_def sum_vals_sum_list sum_filter_sort_key)

lemma totalCohort_rows:
  "totalCohort (cohortBreakdowns scoped c) = sum_list (map (cohortWeight c) scoped)"
  using foldl_accumulate_sums [of c "\<lparr> edu = [], age = [], occ = [] \<rparr>" scoped]
  by (simp add: totalCohort_def cohortBreakdowns_def Let_def sum_vals_sort_key)
     (simp add: sum_vals_sum_list)

section \<open>The high-education share\<close>

lemma index_bachelor: "indexOf EDUCATION_ORDER ''Bachelor's degree'' = 4"
  by (simp add: EDUCATION_ORDER_def)

lemma indexOf_Cons_ge:
  "0 < n \<Longrightarrow> n \<le> indexOf (y # ys) x \<longleftrightarrow> y \<noteq> x \<and> n - 1 \<le> indexOf ys x"
  by (auto simp: Let_def)

lemma indexOf_Cons_ge0: "0 \<le> indexOf (y # ys) x \<longleftrightarrow> y = x \<or> 0 \<le> indexOf ys x"
  by (auto simp: Let_def)

lemma bachelor_or_higher_iff:
  "bachelor_or_higher l \<longleftrightarrow>
     l = ''Bachelor's degree'' \<or> l = ''Master's degree'' \<or> l = ''Professional/Doctorate''
     \<or> l = ''Graduate degree''"
  unfolding bachelor_or_higher_def index_bachelor
  unfolding EDUCATION_ORDER_def
  by (simp add: indexOf_Cons_ge indexOf_Cons_ge0 del: indexOf.simps(2)) auto

lemma highEduCount_rows:
  "highEduCount (cohortBreakdowns scoped c)
     = sum_list (map (cohortWeight c)
         (filter (\<lambda>d. education_level_label d = ''Bachelor's degree''
                      \<or> education_level_label d = ''Graduate degree'') scoped))"
  unfolding highEduCount_def
  by (rule edu_label_weight
      [of "\<lambda>l. l = ''Bachelor's degree'' \<or> l = ''Graduate degree''" scoped c])

text \<open>
  Claim C6, as stated: the high-education share is the summed weight of the two highest
  levels of the ordering table (\<open>Master's degree\<close> and \<open>Professional/Doctorate\<close>) over the
  total, and \<open>isHighEducation\<close> holds exactly when that exceeds 0.4. This fails: with one
  Bachelor's row and one high-school row of weight 10 each, the two highest levels weigh
  nothing, yet the share computed is one half and \<open>isHighEducation\<close> holds.
\<close>

theorem high_education_two_highest_counterexample:
  "0 < totalCohort (cohortBreakdowns degree_rows Low_Wage)
   \<and> js_div (two_highest_levels_weight (cohortBreakdowns degree_rows Low_Wage))
        (totalCohort (cohortBreakdowns degree_rows Low_Wage)) = Fin 0
   \<and> highEducationShare (cohortBreakdowns degree_rows Low_Wage) = Fin (1 / 2)
   \<and> isHighEducation (cohortBreakdowns degree_rows Low_Wage)
   \<and> \<not> js_gt (js_div (two_highest_levels_weight (cohortBreakdowns degree_rows Low_Wage))
        (totalCohort (cohortBreakdowns degree_rows Low_Wage))) (4 / 10)"
proof -
  have val: "edu (cohortBreakdowns degree_rows Low_Wage)
      = [(''HS diploma/GED'', 10), (''Bachelor's degree'', 10)]"
    by (simp add: cohortBreakdowns_def degree_rows_def accumulate_def cohortWeight_def
        get_or_zero_def Let_def EDUCATION_ORDER_def)
  have tot: "totalCohort (cohortBreakdowns degree_rows Low_Wage) = 20"
    by (simp add: totalCohort_def val sum_vals_def)
  have two: "two_highest_levels_weight (cohortBreakdowns degree_rows Low_Wage) = 0"
    by (simp add: two_highest_levels_weight_def two_highest_levels_def val sum_vals_def
        EDUCATION_ORDER_def)
  have high: "highEduCount (cohortBreakdowns degree_rows Low_Wage) = 10"
    by (simp add: highEduCount_def val sum_vals_def)
  show ?thesis
    by (simp add: tot two high highEducationShare_def isHighEducation_def js_div_def)
qed

text \<open>
  Claim C6, amended. For every scoped row set with positive total education weight and no
  row at the \<open>Master's degree\<close> or \<open>Professional/Doctorate\<close> level, the high-education share
  is the summed weight of the rows whose level is \<open>Bachelor's degree\<close> or higher in the
  ordering table (or is labelled \<open>Graduate degree\<close>), divided by the total education weight,
  and \<open>isHighEducation\<close> holds exactly when that share exceeds 0.4.
\<close>

theorem high_education_share:
  assumes "0 < totalCohort (cohortBreakdowns scoped c)"
    and "\<forall>d\<in>set scoped. education_level_label d \<noteq> ''Master's degree''
                          \<and> education_level_label d \<noteq> ''Professional/Doctorate''"
  shows "highEducationShare (cohortBreakdowns scoped c)
           = Fin (sum_list (map (cohortWeight c)
                    (filter (\<lambda>d. bachelor_or_higher (education_level_label d)) scoped))
                  / sum_list (map (cohortWeight c) scoped))
       \<and> (isHighEducation (cohortBreakdowns scoped c) \<longleftrightarrow>
            sum_list (map (cohortWeight c)
              (filter (\<lambda>d. bachelor_or_higher (education_level_label d)) scoped))
            / sum_list (map (cohortWeight c) scoped) > 4 / 10)"
proof -
  have same: "filter (\<lambda>d. bachelor_or_higher (education_level_label d)) scoped
      = filter (\<lambda>d. education_level_label d = ''Bachelor's degree''
                   \<or> education_level_label d = ''Graduate degree'') scoped"
    using assms(2) by (intro filter_cong refl) (auto simp: bachelor_or_higher_iff)
  have pos: "sum_list (map (cohortWeight c) scoped) \<noteq> 0"
    using assms(1) by (simp add: totalCohort_rows)
  have share: "highEducationShare (cohortBreakdowns scoped c)
           = Fin (sum_list (map (cohortWeight c)
                    (filter (\<lambda>d. bachelor_or_higher (education_level_label d)) scoped))
                  / sum_list (map (cohortWeight c) scoped))"
    unfolding highEducationShare_def highEduCount_rows totalCohort_rows same
    using pos by (simp add: js_div_def)
  show ?thesis
    unfolding isHighEducation_def share by (simp add: share)
qed

theorem high_education_share_witness:
  "0 < totalCohort (cohortBreakdowns degree_rows Low_Wage)
   \<and> highEducationShare (cohortBreakdowns degree_rows Low_Wage) = Fin (1 / 2)
   \<and> isHighEducation (cohortBreakdowns degree_rows Low_Wage)"
proof -
  have tot: "0 < totalCohort (cohortBreakdowns degree_rows Low_Wage)"
    by (simp add: totalCohort_rows degree_rows_def cohortWeight_def)
  have lev: "\<forall>d\<in>set degree_rows. education_level_label d \<noteq> ''Master's degree''
                          \<and> education_level_label d \<noteq> ''Professional/Doctorate''"
    by (simp add: degree_rows_def)
  have num: "sum_list (map (cohortWeight Low_Wage)
       (filter (\<lambda>d. bachelor_or_higher (education_level_label d)) degree_rows)) = 10"
    by (simp add: degree_rows_def bachelor_or_higher_iff cohortWeight_def)
  have den: "sum_list (map (cohortWeight Low_Wage) degree_rows) = 20"
    by (simp add: degree_rows_def cohortWeight_def)
  show ?thesis
    using high_education_share [OF tot lev] tot by (simp add: num den)
qed

section \<open>A cohort of total weight zero\<close>

lemma foldl_accumulate_nonneg:
  "\<forall>d\<in>set rows. nonneg_row d \<Longrightarrow>
   (\<forall>a\<in>set (edu acc). 0 \<le> snd a) \<and> (\<forall>a\<in>set (age acc). 0 \<le> snd a) \<Longrightarrow>
   (\<forall>a\<in>set (edu (foldl (accumulate c) acc rows)). 0 \<le> snd a)
   \<and> (\<forall>a\<in>set (age (foldl (accumulate c) acc rows)). 0 \<le> snd a)"
proof (induction rows arbitrary: acc)
  case Nil
  then show ?case by simp
next
  case (Cons d rows)
  have w: "0 \<le> cohortWeight c d"
    using Cons.prems(1) by (simp add: cohortWeight_nonneg)
  have one: "(\<forall>a\<in>set (edu (accumulate c acc d)). 0 \<le> snd a)
      \<and> (\<forall>a\<in>set (age (accumulate c acc d)). 0 \<le> snd a)"
    using assign_nonneg [of "edu acc" "cohortWeight c d" "education_level_label d"]
      assign_nonneg [of "age acc" "cohortWeight c d" "age_group d"] w Cons.prems(2)
    by (simp add: accumulate_def Let_def)
  have rest: "\<forall>d\<in>set rows. nonneg_row d"
    using Cons.prems(1) by simp
  show ?case
    using Cons.IH [OF rest one] by simp
qed

lemma all_zero_entries:
  assumes "\<forall>a\<in>set (es :: breakdown). 0 \<le> snd a" and "sum_vals es = 0"
  shows "\<forall>a\<in>set es. snd a = 0"
proof -
  have "\<forall>x\<in>set (map snd es). 0 \<le> x"
    using assms(1) by simp
  then have "\<forall>x\<in>set (map snd es). x = 0"
    using assms(2) by (simp only: sum_vals_sum_list sum_list_nonneg_eq_0_iff)
  then show ?thesis by simp
qed

lemma sum_vals_filter_zero:
  "\<forall>a\<in>set (es :: breakdown). snd a = 0 \<Longrightarrow> sum_vals (filter P es) = 0"
  by (induction es) (auto simp: sum_vals_sum_list)

lemma find_zero:
  "\<forall>a\<in>set (es :: breakdown). snd a = 0 \<Longrightarrow>
   (case find P es of None \<Rightarrow> 0 | Some a \<Rightarrow> snd a) = 0"
  by (induction es) auto

lemma js_div_zero_zero: "js_div 0 0 = NaN"
  by (simp add: js_div_def)

text \<open>
  Claim C7, as stated: with total weight zero every derived share is zero, never
  \<open>NaN\<close>. This fails: the quotients are computed unguarded, and for an empty scope each is
  \<open>0 / 0\<close>.
\<close>

theorem zero_total_share_counterexample:
  "totalCohort (cohortBreakdowns [] All_Stranded) = 0
   \<and> youngShare (cohortBreakdowns [] All_Stranded) = NaN
   \<and> youngShare (cohortBreakdowns [] All_Stranded) \<noteq> Fin 0
   \<and> highEducationShare (cohortBreakdowns [] All_Stranded) \<noteq> Fin 0"
  by (simp add: cohortBreakdowns_def totalCohort_def youngShare_def youngCount_def
      highEducationShare_def highEduCount_def sum_vals_def js_div_def)

text \<open>
  Claim C7, amended. For scoped rows with non-negative weights whose total weight is zero,
  every derived boolean (\<open>isYoungCohort\<close>, \<open>isMatureCohort\<close>, \<open>isLowEducation\<close>,
  \<open>isHighEducation\<close>, \<open>hasSomeCollege\<close>) is false; each of the five share quotients is
  \<open>0 / 0\<close>, that is \<open>NaN\<close> (a value, not an error), which exceeds no threshold.
\<close>

theorem zero_total_signals:
  assumes "\<forall>d\<in>set scoped. nonneg_row d"
    and "totalCohort (cohortBreakdowns scoped c) = 0"
  shows "\<not> isYoungCohort (cohortBreakdowns scoped c)
       \<and> \<not> isMatureCohort (cohortBreakdowns scoped c)
       \<and> \<not> isLowEducation (cohortBreakdowns scoped c)
       \<and> \<not> isHighEducation (cohortBreakdowns scoped c)
       \<and> \<not> hasSomeCollege (cohortBreakdowns scoped c)
       \<and> youngShare (cohortBreakdowns scoped c) = NaN
       \<and> matureShare (cohortBreakdowns scoped c) = NaN
       \<and> lowEducationShare (cohortBreakdowns scoped c) = NaN
       \<and> highEducationShare (cohortBreakdowns scoped c) = NaN
       \<and> someCollegeShare (cohortBreakdowns scoped c) = NaN"
proof -
  let ?b = "cohortBreakdowns scoped c"
  let ?acc = "foldl (accumulate c) \<lparr> edu = [], age = [], occ = [] \<rparr> scoped"
  have nn: "(\<forall>a\<in>set (edu ?acc). 0 \<le> snd a) \<and> (\<forall>a\<in>set (age ?acc). 0 \<le> snd a)"
    using foldl_accumulate_nonneg [OF assms(1), of "\<lparr> edu = [], age = [], occ = [] \<rparr>" c]
    by simp
  have nn_edu: "\<forall>a\<in>set (edu ?b). 0 \<le> snd a" and nn_age: "\<forall>a\<in>set (age ?b). 0 \<le> snd a"
    using nn by (simp_all add: cohortBreakdowns_def Let_def)
  have edu0: "sum_vals (edu ?b) = 0"
    using assms(2) by (simp add: totalCohort_def)
  have age0: "sum_vals (age ?b) = 0"
    using breakdown_totals_sum [OF assms(1), of c] edu0 by simp
  have ze: "\<forall>a\<in>set (edu ?b). snd a = 0"
    using all_zero_entries [OF nn_edu edu0] .
  have za: "\<forall>a\<in>set (age ?b). snd a = 0"
    using all_zero_entries [OF nn_age age0] .
  have counts: "youngCount ?b = 0" "matureCount ?b = 0" "lowEduCount ?b = 0"
    "highEduCount ?b = 0" "someCollegeCount ?b = 0"
    using ze za
    by (simp_all add: youngCount_def matureCount_def lowEduCount_def highEduCount_def
        someCollegeCount_def sum_vals_filter_zero find_zero)
  have shares: "youngShare ?b = NaN" "matureShare ?b = NaN" "lowEducationShare ?b = NaN"
    "highEducationShare ?b = NaN" "someCollegeShare ?b = NaN"
    by (simp_all add: youngShare_def matureShare_def lowEducationShare_def
        highEducationShare_def someCollegeShare_def counts assms(2) js_div_zero_zero)
  show ?thesis
    by (simp add: isYoungCohort_def isMatureCohort_def isLowEducation_def
        isHighEducation_def hasSomeCollege_def shares)
qed

theorem zero_total_signals_witness:
  "totalCohort (cohortBreakdowns [idle_row] All_Stranded) = 0
   \<and> edu (cohortBreakdowns [idle_row] All_Stranded) = [(''Unknown'', 0)]
   \<and> \<not> isYoungCohort (cohortBreakdowns [idle_row] All_Stranded)
   \<and> \<not> isMatureCohort (cohortBreakdowns [idle_row] All_Stranded)
   \<and> matureShare (cohortBreakdowns [idle_row] All_Stranded) = NaN"
proof -
  have nonneg: "\<forall>d\<in>set [idle_row]. nonneg_row d"
    by (simp add: idle_row_def nonneg_row_def)
  have val: "edu (cohortBreakdowns [idle_row] All_Stranded) = [(''Unknown'', 0)]"
    by (simp add: cohortBreakdowns_def idle_row_def accumulate_def cohortWeight_def
        get_or_zero_def Let_def)
  have tot: "totalCohort (cohortBreakdowns [idle_row] All_Stranded) = 0"
    by (simp add: totalCohort_def val sum_vals_def)
  show ?thesis
    using zero_total_signals [OF nonneg tot] val tot by simp
qed

text \<open>
  Non-negative weights are needed for the booleans: when weights of both signs cancel in
  the total, a positive numerator over the zero total is \<open>Infinity\<close>, which exceeds the
  threshold.
\<close>

lemma zero_total_cancelling_weights:
  "totalCohort (cohortBreakdowns cancelling_rows Low_Wage) = 0
   \<and> youngShare (cohortBreakdowns cancelling_rows Low_Wage) = PosInf
   \<and> isYoungCohort (cohortBreakdowns cancelling_rows Low_Wage)"
proof -
  have val: "cohortBreakdowns cancelling_rows Low_Wage
      = \<lparr> edu = [(''HS diploma/GED'', 0)], age = [(''18-24'', 5), (''35-44'', - 5)],
          occ = [(''Machinist'', 5)] \<rparr>"
    by (simp add: cohortBreakdowns_def cancelling_rows_def accumulate_def cohortWeight_def
        get_or_zero_def Let_def AGE_GROUPS_def)
  show ?thesis
    unfolding val
    by (simp add: totalCohort_def youngShare_def youngCount_def isYoungCohort_def
        sum_vals_def js_div_def)
qed

section \<open>Composition of the recommendation list\<close>

lemma includes_str_iff: "includes_str s k \<longleftrightarrow> (\<exists>p q. s = p @ k @ q)"
proof (induction s)
  case Nil
  show ?case by simp
next
  case (Cons c s)
  show ?case
  proof
    assume "includes_str (c # s) k"
    then consider "take (length k) (c # s) = k" | "includes_str s k"
      by auto
    then show "\<exists>p q. c # s = p @ k @ q"
    proof cases
      case 1
      then have "c # s = [] @ k @ drop (length k) (c # s)"
        by (metis append_Nil append_take_drop_id)
      then show ?thesis by blast
    next
      case 2
      then obtain p q where "s = p @ k @ q"
        using Cons.IH by blast
      then have "c # s = (c # p) @ k @ q" by simp
      then show ?thesis by blast
    qed
  next
    assume "\<exists>p q. c # s = p @ k @ q"
    then obtain p q where pq: "c # s = p @ k @ q" by blast
    show "includes_str (c # s) k"
    proof (cases p)
      case Nil
      then have "take (length k) (c # s) = k"
        using pq by simp
      then show ?thesis by simp
    next
      case (Cons c' p')
      then have "s = p' @ k @ q"
        using pq by simp
      then have "includes_str s k"
        using Cons.IH by blast
      then show ?thesis by simp
    qed
  qed
qed

lemma isEntrepreneurshipViable_iff:
  "isEntrepreneurshipViable target \<longleftrightarrow>
     (\<exists>k\<in>set entrepreneurshipOccupations. \<exists>p q. or_empty target = p @ k @ q)"
  by (simp add: isEntrepreneurshipViable_def list_ex_iff includes_str_iff)

text \<open>
  Claim C8. For every breakdown, sector and target occupation the recommendation list is,
  in this order: one age strategy, one education strategy, one sector strategy, the
  college-completion entry exactly when \<open>hasSomeCollege\<close> holds, the internal-mobility
  entry, and the entrepreneurship entry exactly when the target occupation's label (the
  empty label when none is set) contains one of the trade keywords.
\<close>

theorem recommendations_order:
  "\<exists>a e x.
     a \<in> {Youth_Apprenticeship, Mid_Career_Upskilling, Career_Advancement}
     \<and> e \<in> {Foundational_Skills, Advanced_Credential_Stacking, Flexible_Postsecondary}
     \<and> x \<in> {Advanced_Manufacturing, Healthcare_Ladders, Digital_Commerce, Skilled_Trades,
              Technology_Upskilling, Educational_Support, Cross_Sector}
     \<and> recommendations b sec target
         = [a, e, x]
           @ (if hasSomeCollege b then [College_Completion] else [])
           @ [Internal_Mobility]
           @ (if \<exists>k\<in>set entrepreneurshipOccupations. \<exists>p q. or_empty target = p @ k @ q
              then [Self_Employment] else [])"
proof -
  define a where "a =
    (if isYoungCohort b then Youth_Apprenticeship
     else if isMatureCohort b then Mid_Career_Upskilling else Career_Advancement)"
  define e where "e =
    (if isLowEducation b then Foundational_Skills
     else if isHighEducation b then Advanced_Credential_Stacking else Flexible_Postsecondary)"
  define x where "x =
    (if includes_str sec ''Manufacturing'' then Advanced_Manufacturing
     else if includes_str sec ''Health'' then Healthcare_Ladders
     else if includes_str sec ''Retail'' \<or> includes_str sec ''Food'' then Digital_Commerce
     else if includes_str sec ''Construction'' then Skilled_Trades
     else if includes_str sec ''Professional'' \<or> includes_str sec ''Finance''
             \<or> includes_str sec ''Information'' then Technology_Upskilling
     else if includes_str sec ''Educational'' then Educational_Support
     else Cross_Sector)"
  have a: "a \<in> {Youth_Apprenticeship, Mid_Career_Upskilling, Career_Advancement}"
    by (simp add: a_def)
  have e: "e \<in> {Foundational_Skills, Advanced_Credential_Stacking, Flexible_Postsecondary}"
    by (simp add: e_def)
  have x: "x \<in> {Advanced_Manufacturing, Healthcare_Ladders, Digital_Commerce, Skilled_Trades,
              Technology_Upskilling, Educational_Support, Cross_Sector}"
    by (simp add: x_def)
  have r3: "recommendations b sec target
      = [a, e, x]
        @ (if hasSomeCollege b then [College_Completion] else [])
        @ [Internal_Mobility]
        @ (if isEntrepreneurshipViable target then [Self_Employment] else [])"
    unfolding recommendations_def Let_def a_def e_def x_def
    by (simp split: if_splits)
  show ?thesis
    using a e x r3 unfolding isEntrepreneurshipViable_iff by blast
qed

theorem recommendations_order_witness:
  "\<not> hasSomeCollege (cohortBreakdowns degree_rows Low_Wage)
   \<and> or_empty (Some ''Electricians'') = [] @ ''Electricians'' @ []
   \<and> (\<exists>a e x. recommendations (cohortBreakdowns degree_rows Low_Wage)
          ''Health Care and Social Assistance'' (Some ''Electricians'')
        = [a, e, x, Internal_Mobility, Self_Employment])
   \<and> recommendations (cohortBreakdowns degree_rows Low_Wage)
          ''Health Care and Social Assistance'' (Some ''Electricians'')
        = [Career_Advancement, Advanced_Credential_Stacking, Healthcare_Ladders,
           Internal_Mobility, Self_Employment]"
proof -
  let ?b = "cohortBreakdowns degree_rows Low_Wage"
  have val: "?b = \<lparr> edu = [(''HS diploma/GED'', 10), (''Bachelor's degree'', 10)],
                    age = [(''25-34'', 10), (''45-54'', 10)],
                    occ = [(''Engineer'', 10), (''Machinist'', 10)] \<rparr>"
    by (simp add: cohortBreakdowns_def degree_rows_def accumulate_def cohortWeight_def
        get_or_zero_def Let_def EDUCATION_ORDER_def AGE_GROUPS_def)
  have sig: "\<not> isYoungCohort ?b" "\<not> isMatureCohort ?b" "\<not> isLowEducation ?b"
    "isHighEducation ?b" "\<not> hasSomeCollege ?b"
    unfolding val
    by (simp_all add: isYoungCohort_def isMatureCohort_def isLowEducation_def
        isHighEducation_def hasSomeCollege_def youngShare_def matureShare_def
        lowEducationShare_def highEducationShare_def someCollegeShare_def youngCount_def
        matureCount_def lowEduCount_def highEduCount_def someCollegeCount_def
        totalCohort_def sum_vals_def js_div_def)
  have key: "\<exists>k\<in>set entrepreneurshipOccupations. \<exists>p q.
      or_empty (Some ''Electricians'') = p @ k @ q"
  proof (intro bexI exI)
    show "or_empty (Some ''Electricians'') = [] @ ''Electricians'' @ []"
      by (simp add: or_empty_def)
    show "''Electricians'' \<in> set entrepreneurshipOccupations"
      by (simp add: entrepreneurshipOccupations_def)
  qed
  have ex: "\<exists>a e x. recommendations ?b ''Health Care and Social Assistance''
      (Some ''Electricians'') = [a, e, x, Internal_Mobility, Self_Employment]"
    using recommendations_order
      [of ?b "''Health Care and Social Assistance''" "Some ''Electricians''"] sig(5) key
    by auto
  have viable: "isEntrepreneurshipViable (Some ''Electricians'')"
    by (simp add: isEntrepreneurshipViable_def entrepreneurshipOccupations_def or_empty_def)
  have list: "recommendations ?b ''Health Care and Social Assistance'' (Some ''Electricians'')
        = [Career_Advancement, Advanced_Credential_Stacking, Healthcare_Ladders,
           Internal_Mobility, Self_Employment]"
    by (simp add: recommendations_def Let_def sig viable)
  have lab: "or_empty (Some ''Electricians'') = [] @ ''Electricians'' @ []"
    by (simp add: or_empty_def)
  show ?thesis
    by (intro conjI) (rule sig(5), rule lab, rule ex, rule list)
qed

section \<open>The "Stranded Rate" tile\<close>

lemma foldl_stats:
  "foldl (\<lambda>s d. \<lparr> total = total s + n_weighted d,
                   lw = lw s + n_weighted_low_wage d,
                   ue = ue s + n_weighted_underemployed d,
                   st = st s + n_weighted_stalled d \<rparr>) s0 rows
     = \<lparr> total = total s0 + sum_list (map n_weighted rows),
         lw = lw s0 + sum_list (map n_weighted_low_wage rows),
         ue = ue s0 + sum_list (map n_weighted_underemployed rows),
         st = st s0 + sum_list (map n_weighted_stalled rows) \<rparr>"
  by (induction rows arbitrary: s0) (simp_all add: add.assoc)

lemma stats_sums:
  "stats scoped
     = \<lparr> total = sum_list (map n_weighted scoped),
         lw = sum_list (map n_weighted_low_wage scoped),
         ue = sum_list (map n_weighted_underemployed scoped),
         st = sum_list (map n_weighted_stalled scoped) \<rparr>"
  by (simp add: stats_def foldl_stats)

text \<open>
  Claim C9. The "Stranded Rate" is one hundred times the low-wage sum over the total sum of
  the scoped stats. The underemployed and stalled sums do not enter it: replacing them in the
  stats, or replacing the underemployed and stalled weights of every scoped row, leaves the
  rate and its displayed text unchanged. It is therefore the low-wage rate: in the scenario
  it is 20 per cent, while the three cohort sums together are 36 per cent of the total.
\<close>

theorem stranded_rate_is_low_wage_rate:
  "strandedRate (stats scoped)
     = js_times100 (js_div (sum_list (map n_weighted_low_wage scoped))
                           (sum_list (map n_weighted scoped)))
   \<and> strandedRate (s\<lparr>ue := u, st := v\<rparr>) = strandedRate s
   \<and> strandedRateText (s\<lparr>ue := u, st := v\<rparr>) = strandedRateText s
   \<and> strandedRate
       (stats (map (\<lambda>d. d\<lparr>n_weighted_underemployed := f d, n_weighted_stalled := g d\<rparr>) scoped))
     = strandedRate (stats scoped)
   \<and> strandedRate (App_stats scenario_state) = Fin 20
   \<and> strandedRateText (App_stats scenario_state) = Digits 20
   \<and> (lw (App_stats scenario_state) + ue (App_stats scenario_state)
        + st (App_stats scenario_state)) / total (App_stats scenario_state) * 100 = 36"
proof -
  have rows: "strandedRate (stats scoped)
     = js_times100 (js_div (sum_list (map n_weighted_low_wage scoped))
                           (sum_list (map n_weighted scoped)))"
    by (simp add: strandedRate_def stats_sums)
  have upd: "strandedRate (s\<lparr>ue := u, st := v\<rparr>) = strandedRate s"
    by (simp add: strandedRate_def)
  have same_text: "strandedRateText (s\<lparr>ue := u, st := v\<rparr>) = strandedRateText s"
    by (simp add: strandedRateText_def strandedRate_def)
  have mapped: "strandedRate
       (stats (map (\<lambda>d. d\<lparr>n_weighted_underemployed := f d, n_weighted_stalled := g d\<rparr>) scoped))
     = strandedRate (stats scoped)"
    by (simp add: strandedRate_def stats_sums comp_def)
  have sc: "App_stats scenario_state = \<lparr> total = 500, lw = 100, ue = 50, st = 30 \<rparr>"
    by (simp add: App_stats_def scenario_state_def scenario_rows_def filteredByScope_def
        stats_def)
  have rate: "strandedRate (App_stats scenario_state) = Fin 20"
    by (simp add: sc strandedRate_def js_div_def)
  have shown: "strandedRateText (App_stats scenario_state) = Digits 20"
    by (simp add: strandedRateText_def rate floor_eq_iff)
  have union: "(lw (App_stats scenario_state) + ue (App_stats scenario_state)
        + st (App_stats scenario_state)) / total (App_stats scenario_state) * 100 = 36"
    by (simp add: sc)
  show ?thesis
    by (intro conjI) (rule rows, rule upd, rule same_text, rule mapped, rule rate, rule shown,
        rule union)
qed

theorem stranded_rate_is_low_wage_rate_witness:
  "strandedRate (stats (scenario_rows @ [idle_row])) = Fin (100 * (300 / 1440))
   \<and> strandedRate (\<lparr> total = 500, lw = 100, ue = 0, st = 0 \<rparr>\<lparr>ue := 50, st := 30\<rparr>)
     = strandedRate \<lparr> total = 500, lw = 100, ue = 0, st = 0 \<rparr>"
proof -
  have sums: "sum_list (map n_weighted_low_wage (scenario_rows @ [idle_row])) = 300"
    "sum_list (map n_weighted (scenario_rows @ [idle_row])) = 1440"
    by (simp_all add: scenario_rows_def idle_row_def)
  have a: "strandedRate (stats (scenario_rows @ [idle_row])) = Fin (100 * (300 / 1440))"
    using stranded_rate_is_low_wage_rate [where scoped = "scenario_rows @ [idle_row]"]
    unfolding sums by (simp add: js_div_def)
  have b: "strandedRate (\<lparr> total = 500, lw = 100, ue = 0, st = 0 \<rparr>\<lparr>ue := 50, st := 30\<rparr>)
     = strandedRate \<lparr> total = 500, lw = 100, ue = 0, st = 0 \<rparr>"
    using stranded_rate_is_low_wage_rate
      [where s = "\<lparr> total = 500, lw = 100, ue = 0, st = 0 \<rparr>" and u = 50 and v = 30]
    by blast
  show ?thesis
    by (intro conjI) (rule a, rule b)
qed

section \<open>The target occupation\<close>

lemma or_default_nonempty: "d \<noteq> [] \<Longrightarrow> or_default v d \<noteq> []"
  by (simp add: or_default_def split: option.splits)

lemma loadCSVData_labelled:
  "list_all (\<lambda>d. soc_2019_5_acs_name d \<noteq> []) (loadCSVData results)"
  by (cases results)
     (simp_all add: loadCSVData_def list_all_iff mappedRow_def or_default_nonempty)

lemma foldl_accumulate_occ_keys:
  "set (map fst (occ (foldl (accumulate c) acc rows)))
     = set (map fst (occ acc)) \<union> soc_2019_5_acs_name ` set rows"
proof (induction rows arbitrary: acc)
  case Nil
  show ?case by simp
next
  case (Cons d rows)
  have one: "set (map fst (occ (accumulate c acc d)))
               = insert (soc_2019_5_acs_name d) (set (map fst (occ acc)))"
    using keys_assign [of "soc_2019_5_acs_name d" _ "occ acc"]
    by (simp add: accumulate_def Let_def)
  show ?case
    unfolding foldl_Cons Cons.IH [of "accumulate c acc d"] one by auto
qed

lemma occ_labels_subset:
  "fst ` set (occ (cohortBreakdowns scoped c)) \<subseteq> soc_2019_5_acs_name ` set scoped"
proof -
  have "set (map fst (occ (cohortBreakdowns scoped c)))
      \<subseteq> set (map fst (occ (foldl (accumulate c) \<lparr> edu = [], age = [], occ = [] \<rparr> scoped)))"
    by (auto simp: cohortBreakdowns_def Let_def)
  then show ?thesis
    unfolding foldl_accumulate_occ_keys by simp
qed

lemma App_occ_labels_nonempty:
  assumes "labelled s" and "a \<in> set (occ (App_cohortBreakdowns s))"
  shows "fst a \<noteq> []"
proof -
  have "fst a \<in> soc_2019_5_acs_name ` set (filteredByScope (rawData s) (geography s) (sector s))"
    using occ_labels_subset assms(2) unfolding App_cohortBreakdowns_def by blast
  then obtain d where "d \<in> set (rawData s)" and "fst a = soc_2019_5_acs_name d"
    by (auto simp: filteredByScope_def)
  then show ?thesis
    using assms(1) by (auto simp: labelled_def list_all_iff)
qed

lemma App_cohortBreakdowns_target [simp]:
  "App_cohortBreakdowns (s\<lparr>targetOccupation := t\<rparr>) = App_cohortBreakdowns s"
  by (simp add: App_cohortBreakdowns_def)

lemma autoPopulate_labelled: "labelled s \<Longrightarrow> labelled (autoPopulate s)"
proof -
  assume inv: "labelled s"
  show ?thesis
  proof (cases "length (occ (App_cohortBreakdowns s)) > 0 \<and> falsy (targetOccupation s)")
    case True
    then have "occ (App_cohortBreakdowns s) ! 0 \<in> set (occ (App_cohortBreakdowns s))"
      by simp
    then have "fst (occ (App_cohortBreakdowns s) ! 0) \<noteq> []"
      using App_occ_labels_nonempty [OF inv] by blast
    then show ?thesis
      using inv True by (simp add: autoPopulate_def Let_def labelled_def)
  next
    case False
    then show ?thesis
      using inv by (auto simp: autoPopulate_def Let_def)
  qed
qed

lemma update_labelled: "labelled s \<Longrightarrow> labelled (update s ev)"
proof (cases ev)
  case (Data_Loaded results)
  assume "labelled s"
  then show ?thesis
    using loadCSVData_labelled [of results] by (simp add: Data_Loaded labelled_def)
next
  case (Click_Occupation i)
  assume inv: "labelled s"
  show ?thesis
  proof (cases "i < length (take 10 (occ (App_cohortBreakdowns s)))")
    case True
    then have "take 10 (occ (App_cohortBreakdowns s)) ! i \<in> set (occ (App_cohortBreakdowns s))"
      by (metis in_set_takeD nth_mem)
    then have "fst (take 10 (occ (App_cohortBreakdowns s)) ! i) \<noteq> []"
      using App_occ_labels_nonempty [OF inv] by blast
    then show ?thesis
      using inv True by (simp add: Click_Occupation Let_def labelled_def)
  next
    case False
    then show ?thesis
      using inv by (auto simp: Click_Occupation Let_def)
  qed
qed (simp_all add: labelled_def)

lemma step_labelled: "labelled s \<Longrightarrow> labelled (step s ev)"
  by (simp add: step_def autoPopulate_labelled update_labelled)

lemma foldl_step_labelled: "labelled s \<Longrightarrow> labelled (foldl step s evs)"
  by (induction evs arbitrary: s) (simp_all add: step_labelled)

lemma run_labelled: "labelled (run evs)"
proof -
  have "labelled initialState"
    by (simp add: labelled_def initialState_def)
  then show ?thesis
    unfolding run_def by (intro foldl_step_labelled autoPopulate_labelled)
qed

lemma step_keeps_target:
  assumes "labelled s" and "targetOccupation s = Some t" and "selection_change ev"
  shows "targetOccupation (step s ev) = Some t"
proof -
  have t: "t \<noteq> []"
    using assms(1,2) by (simp add: labelled_def)
  have "targetOccupation (update s ev) = Some t"
    using assms(2,3) by (cases ev) simp_all
  then show ?thesis
    using t by (simp add: step_def autoPopulate_def Let_def falsy_def)
qed

lemma foldl_step_keeps_target:
  "labelled s \<Longrightarrow> targetOccupation s = Some t \<Longrightarrow> list_all selection_change evs \<Longrightarrow>
   targetOccupation (foldl step s evs) = Some t"
proof (induction evs arbitrary: s)
  case Nil
  then show ?case by simp
next
  case (Cons ev evs)
  have "labelled (step s ev)" and "targetOccupation (step s ev) = Some t"
    using Cons.prems by (simp_all add: step_labelled step_keeps_target)
  then show ?case
    using Cons.IH [of "step s ev"] Cons.prems(3) by simp
qed

lemma run_sector_csv:
  "run [Data_Loaded (Some sector_csv)]
     = \<lparr> geography = All_MSA, sector = ''Manufacturing'', selectedCohort = All_Stranded,
         targetOccupation = Some ''Machinist'', rawData = map mappedRow sector_csv \<rparr>"
  by (simp add: run_def step_def initialState_def autoPopulate_def App_cohortBreakdowns_def
      filteredByScope_def cohortBreakdowns_def accumulate_def cohortWeight_def
      get_or_zero_def Let_def falsy_def loadCSVData_def mappedRow_def sector_csv_def
      or_default_def number_or_zero_def)

lemma run_sector_csv_retail:
  "targetOccupation (step (run [Data_Loaded (Some sector_csv)]) (Set_Sector ''Retail Trade''))
     = Some ''Machinist''
   \<and> occ (App_cohortBreakdowns
       (step (run [Data_Loaded (Some sector_csv)]) (Set_Sector ''Retail Trade'')))
     = [(''Other'', 310)]"
  unfolding run_sector_csv
  by (simp add: step_def autoPopulate_def App_cohortBreakdowns_def
      filteredByScope_def cohortBreakdowns_def accumulate_def cohortWeight_def
      get_or_zero_def Let_def falsy_def mappedRow_def sector_csv_def
      or_default_def number_or_zero_def)

text \<open>
  Claim C10. Once the target occupation of a session is set, no later sequence of changes of
  geography, sector or cohort alters it: the auto-populate effect writes only while the
  target occupation is unset (a loaded occupation label is never empty, so a set target is
  never the empty label). The target occupation can therefore be absent from the occupation
  breakdown on display: after the rows of two sectors are loaded the target is
  \<open>Machinist\<close>, and it still is after the other sector is selected, whose only
  occupation entry is \<open>Other\<close>.
\<close>

theorem target_occupation_kept:
  "(targetOccupation (run evs) = Some t \<and> list_all selection_change changes
      \<longrightarrow> targetOccupation (run (evs @ changes)) = Some t)
   \<and> (\<exists>evs ev t. selection_change ev
        \<and> targetOccupation (run evs) = Some t
        \<and> targetOccupation (run (evs @ [ev])) = Some t
        \<and> t \<notin> fst ` set (occ (App_cohortBreakdowns (run (evs @ [ev])))))"
proof -
  have kept: "targetOccupation (run (evs @ changes)) = Some t"
    if "targetOccupation (run evs) = Some t" and "list_all selection_change changes"
  proof -
    have "run (evs @ changes) = foldl step (run evs) changes"
      by (simp add: run_def)
    then show ?thesis
      using foldl_step_keeps_target [OF run_labelled that] by simp
  qed
  have after: "run ([Data_Loaded (Some sector_csv)] @ [Set_Sector ''Retail Trade''])
      = step (run [Data_Loaded (Some sector_csv)]) (Set_Sector ''Retail Trade'')"
    by (simp add: run_def)
  have "selection_change (Set_Sector ''Retail Trade'')
        \<and> targetOccupation (run [Data_Loaded (Some sector_csv)]) = Some ''Machinist''
        \<and> targetOccupation (run ([Data_Loaded (Some sector_csv)] @ [Set_Sector ''Retail Trade'']))
            = Some ''Machinist''
        \<and> ''Machinist'' \<notin> fst ` set (occ (App_cohortBreakdowns
              (run ([Data_Loaded (Some sector_csv)] @ [Set_Sector ''Retail Trade'']))))"
    unfolding after using run_sector_csv_retail by (simp add: run_sector_csv)
  then have stale: "\<exists>evs ev t. selection_change ev
        \<and> targetOccupation (run evs) = Some t
        \<and> targetOccupation (run (evs @ [ev])) = Some t
        \<and> t \<notin> fst ` set (occ (App_cohortBreakdowns (run (evs @ [ev]))))"
    by blast
  show ?thesis
    using kept stale by blast
qed

theorem target_occupation_kept_witness:
  "targetOccupation (run [Data_Loaded (Some sector_csv)]) = Some ''Machinist''
   \<and> list_all selection_change
        [Set_Sector ''Retail Trade'', Set_Geography Memphis, Set_Selected_Cohort Stalled]
   \<and> targetOccupation
        (run ([Data_Loaded (Some sector_csv)]
              @ [Set_Sector ''Retail Trade'', Set_Geography Memphis, Set_Selected_Cohort Stalled]))
       = Some ''Machinist''"
proof -
  have a: "targetOccupation (run [Data_Loaded (Some sector_csv)]) = Some ''Machinist''"
    by (simp add: run_sector_csv)
  have b: "list_all selection_change
        [Set_Sector ''Retail Trade'', Set_Geography Memphis, Set_Selected_Cohort Stalled]"
    by simp
  have c: "targetOccupation
        (run ([Data_Loaded (Some sector_csv)]
              @ [Set_Sector ''Retail Trade'', Set_Geography Memphis, Set_Selected_Cohort Stalled]))
       = Some ''Machinist''"
    using target_occupation_kept
      [of "[Data_Loaded (Some sector_csv)]" "''Machinist''"
          "[Set_Sector ''Retail Trade'', Set_Geography Memphis, Set_Selected_Cohort Stalled]"]
      a b
    by blast
  show ?thesis
    by (intro conjI) (rule a, rule b, rule c)
qed

end
